theory Spec2Isabelle
  imports Complex_Main "HOL-Library.Sublist" "HOL-Library.Multiset"
begin

section \<open>The warehouse table\<close>

text \<open>
  The program is one aggregate SQL statement, assembled by
  \<^verbatim>\<open>get_profit_change_by_segment\<close> in \<^verbatim>\<open>server.py\<close> and run over one
  connection. The embedding gives the statement its relational meaning over an in-memory
  copy of the table \<^verbatim>\<open>sales_data\<close>.

  A column that may hold SQL \<^verbatim>\<open>NULL\<close> is an \<open>option\<close>. The quantity and price columns
  are exact numbers (the statement only type-checks in the data store when the profit sums
  are integer or \<^verbatim>\<open>numeric\<close>, since it calls \<^verbatim>\<open>ROUND(_, 2)\<close>); their values are
  modelled as rationals. Sums, differences and products of such numbers are exact in the
  data store; its division is not, and is modelled with the scale the data store gives to
  a quotient. Text is a list of bytes, so the single-character wildcard of \<^verbatim>\<open>LIKE\<close>
  agrees with the data store on ASCII text.
\<close>

datatype sql_value = SqlNull | SqlText string | SqlNum rat

record sales_row =
  ym :: "string option"
  yq :: "string option"
  yh :: "string option"
  mid_man_qty :: "rat option"
  mid_man_unit_price_jpy :: "rat option"
  maker_unit_price_jpy :: "rat option"
  seller_qty :: "rat option"
  seller_unit_price_jpy :: "rat option"
  dims :: "string \<Rightarrow> string option"

text \<open>
  \<open>dims\<close> holds the remaining text columns of the table (\<^verbatim>\<open>bu\<close>, \<^verbatim>\<open>product\<close>,
  \<^verbatim>\<open>customer\<close>, \<^verbatim>\<open>pn\<close>, ...). \<open>column\<close> reads a column by the name that
  \<^verbatim>\<open>group_by\<close> interpolates into the statement.
\<close>

definition text_value :: "string option \<Rightarrow> sql_value" where
  "text_value v = (case v of None \<Rightarrow> SqlNull | Some s \<Rightarrow> SqlText s)"

definition num_value :: "rat option \<Rightarrow> sql_value" where
  "num_value v = (case v of None \<Rightarrow> SqlNull | Some x \<Rightarrow> SqlNum x)"

definition column :: "string \<Rightarrow> sales_row \<Rightarrow> sql_value" where
  "column c sd =
     (if c = ''ym'' then text_value (ym sd)
      else if c = ''yq'' then text_value (yq sd)
      else if c = ''yh'' then text_value (yh sd)
      else if c = ''mid_man_qty'' then num_value (mid_man_qty sd)
      else if c = ''mid_man_unit_price_jpy'' then num_value (mid_man_unit_price_jpy sd)
      else if c = ''maker_unit_price_jpy'' then num_value (maker_unit_price_jpy sd)
      else if c = ''seller_qty'' then num_value (seller_qty sd)
      else if c = ''seller_unit_price_jpy'' then num_value (seller_unit_price_jpy sd)
      else text_value (dims sd c))"

section \<open>SQL operators used by the statement\<close>

text \<open>Three-valued logic: \<open>None\<close> is SQL's unknown.\<close>

type_synonym sql_bool = "bool option"

fun sql_and :: "sql_bool \<Rightarrow> sql_bool \<Rightarrow> sql_bool" where
  "sql_and (Some False) _ = Some False"
| "sql_and _ (Some False) = Some False"
| "sql_and (Some True) (Some True) = Some True"
| "sql_and _ _ = None"

fun sql_or :: "sql_bool \<Rightarrow> sql_bool \<Rightarrow> sql_bool" where
  "sql_or (Some True) _ = Some True"
| "sql_or _ (Some True) = Some True"
| "sql_or (Some False) (Some False) = Some False"
| "sql_or _ _ = None"

definition sql_eq :: "'a option \<Rightarrow> 'a option \<Rightarrow> sql_bool" where
  "sql_eq a b = (case a of None \<Rightarrow> None | Some x \<Rightarrow> (case b of None \<Rightarrow> None | Some y \<Rightarrow> Some (x = y)))"

definition coalesce :: "'a option \<Rightarrow> 'a \<Rightarrow> 'a" where
  "coalesce v d = (case v of None \<Rightarrow> d | Some x \<Rightarrow> x)"

text \<open>
  \<^verbatim>\<open>position(c IN s)\<close> for a one-character needle: the 1-based index of the first
  occurrence, 0 when there is none.
\<close>

fun position :: "char \<Rightarrow> string \<Rightarrow> nat" where
  "position c [] = 0"
| "position c (x # xs) =
     (if x = c then 1 else (case position c xs of 0 \<Rightarrow> 0 | Suc n \<Rightarrow> Suc (Suc n)))"

text \<open>
  \<^verbatim>\<open>subject LIKE pattern\<close> on non-null text, pattern first: \<^verbatim>\<open>%\<close> stands for any run
  of characters, \<^verbatim>\<open>_\<close> for any one character, and a backslash takes the next pattern
  character literally. A pattern that ends in a lone backslash is rejected by the data
  store; the statement never builds one, since it appends \<^verbatim>\<open>%\<close>, and the function
  gives \<open>False\<close> there.
\<close>

fun like :: "string \<Rightarrow> string \<Rightarrow> bool" where
  "like [] s = (s = [])"
| "like (p # ps) s =
     (if p = CHR ''%'' then
        (if like ps s then True
         else (case s of [] \<Rightarrow> False | c # cs \<Rightarrow> like (p # ps) cs))
      else if p = CHR ''_'' then
        (case s of [] \<Rightarrow> False | c # cs \<Rightarrow> like ps cs)
      else if p = CHR 0x5C then
        (case ps of
           [] \<Rightarrow> False
         | q # qs \<Rightarrow> (case s of [] \<Rightarrow> False | c # cs \<Rightarrow> if c = q then like qs cs else False))
      else
        (case s of [] \<Rightarrow> False | c # cs \<Rightarrow> if c = p then like ps cs else False))"

definition sql_like :: "string option \<Rightarrow> string option \<Rightarrow> sql_bool" where
  "sql_like subject pat =
     (case subject of None \<Rightarrow> None
      | Some s \<Rightarrow> (case pat of None \<Rightarrow> None | Some p \<Rightarrow> Some (like p s)))"

text \<open>\<^verbatim>\<open>ROUND(x, n)\<close> on an exact number: to \<open>n\<close> decimal places, ties away from zero.\<close>

definition sql_round :: "rat \<Rightarrow> nat \<Rightarrow> rat" where
  "sql_round x n = sgn x * of_int \<lfloor>\<bar>x\<bar> * 10 ^ n + 1 / 2\<rfloor> / 10 ^ n"

text \<open>Every failure of a call: the three Python exceptions, and any error of the data store.\<close>

datatype error = AssertionError | KeyError | IndexError | DataStoreError

text \<open>
  Division of \<^verbatim>\<open>numeric\<close> values in PostgreSQL. A value is held in base 10000, aligned
  at the decimal point; its weight is the power of 10000 of its first non-zero digit
  (\<open>num_weight\<close>, \<open>first_digit\<close>; both 0 for the value 0). The quotient is computed
  to a scale that gives at least 16 significant digits and is no less than the display
  scale of either operand, and is rounded to that scale, ties away from zero. Division
  by zero is an error of the data store.
\<close>

function base_weight :: "int \<Rightarrow> nat" where
  "base_weight n = (if n < 10000 then 0 else Suc (base_weight (n div 10000)))"
  by pat_completeness auto
termination
  by (relation "measure nat") auto

function frac_shift :: "int \<Rightarrow> int \<Rightarrow> nat" where
  "frac_shift p q = (if p \<le> 0 then 0 else if q \<le> p then 0 else Suc (frac_shift (p * 10000) q))"
  by pat_completeness auto
termination
  by (relation "measure (\<lambda>(p, q). nat (q - p))") auto

definition num_weight :: "rat \<Rightarrow> int" where
  "num_weight x =
     (let (p, q) = quotient_of \<bar>x\<bar> in
      if p = 0 then 0
      else if q \<le> p then int (base_weight (p div q))
      else - int (frac_shift p q))"

definition first_digit :: "rat \<Rightarrow> int" where
  "first_digit x =
     (let w = num_weight x in
      if 0 \<le> w then \<lfloor>\<bar>x\<bar>\<rfloor> div 10000 ^ nat w else \<lfloor>\<bar>x\<bar> * 10000 ^ nat (- w)\<rfloor>)"

definition select_div_scale :: "nat \<Rightarrow> rat \<Rightarrow> rat \<Rightarrow> nat" where
  "select_div_scale dscale var1 var2 =
     (let qweight = num_weight var1 - num_weight var2 -
                    (if first_digit var1 \<le> first_digit var2 then 1 else 0);
          rscale = 16 - qweight * 4
      in nat (min (max (max rscale (int dscale)) 0) 1000))"

definition numeric_div :: "nat \<Rightarrow> rat \<Rightarrow> rat \<Rightarrow> error + rat" where
  "numeric_div dscale var1 var2 =
     (if var2 = 0 then Inl DataStoreError
      else Inr (sql_round (var1 / var2) (select_div_scale dscale var1 var2)))"

section \<open>The time-matching condition\<close>

text \<open>
  The \<^verbatim>\<open>CASE WHEN (...)\<close> condition of both sums, with the six disjuncts in the order of
  the statement. \<open>t\<close> is \<^verbatim>\<open>params.t1\<close> in the first sum and \<^verbatim>\<open>params.t2\<close> in the
  second. \<open>time_column\<close> is the text bound to \<^verbatim>\<open>$3\<close>: any string can arrive there.
\<close>

definition time_condition :: "string \<Rightarrow> string \<Rightarrow> sales_row \<Rightarrow> sql_bool" where
  "time_condition time_column t sd =
     sql_or (sql_and (Some (time_column = ''ym'')) (sql_eq (ym sd) (Some t)))
    (sql_or (sql_and (Some (time_column = ''yq'')) (sql_eq (yq sd) (Some t)))
    (sql_or (sql_and (Some (time_column = ''yh'')) (sql_eq (yh sd) (Some t)))
    (sql_or (sql_and (Some (time_column = ''ym''))
               (sql_and (Some (position CHR ''/'' t = 0)) (sql_like (ym sd) (Some (t @ ''%'')))))
    (sql_or (sql_and (Some (time_column = ''yq''))
               (sql_and (Some (position CHR ''Q'' t = 0)) (sql_like (yq sd) (Some (t @ ''%'')))))
            (sql_and (Some (time_column = ''yh''))
               (sql_and (Some (position CHR ''H'' t = 0)) (sql_like (yh sd) (Some (t @ ''%'')))))))))"

text \<open>\<^verbatim>\<open>CASE WHEN c THEN a ELSE b END\<close> takes the \<^verbatim>\<open>THEN\<close> branch only when \<open>c\<close> is true.\<close>

definition time_match :: "string \<Rightarrow> string \<Rightarrow> sales_row \<Rightarrow> bool" where
  "time_match time_column t sd = (time_condition time_column t sd = Some True)"

section \<open>The profit expressions\<close>

text \<open>
  The three SQL fragments of the dictionary \<^verbatim>\<open>profit_expressions\<close>, each written out
  as in the source: \<^verbatim>\<open>overall\<close> is its own text, not a reference to the other two.
\<close>

definition middle_man_expr :: "sales_row \<Rightarrow> rat" where
  "middle_man_expr sd =
     coalesce (mid_man_qty sd) 0 *
       (coalesce (mid_man_unit_price_jpy sd) 0 - coalesce (maker_unit_price_jpy sd) 0)"

definition seller_expr :: "sales_row \<Rightarrow> rat" where
  "seller_expr sd =
     coalesce (seller_qty sd) 0 *
       (coalesce (seller_unit_price_jpy sd) 0 - coalesce (mid_man_unit_price_jpy sd) 0)"

definition overall_expr :: "sales_row \<Rightarrow> rat" where
  "overall_expr sd =
     coalesce (mid_man_qty sd) 0 *
       (coalesce (mid_man_unit_price_jpy sd) 0 - coalesce (maker_unit_price_jpy sd) 0) +
     coalesce (seller_qty sd) 0 *
       (coalesce (seller_unit_price_jpy sd) 0 - coalesce (mid_man_unit_price_jpy sd) 0)"

definition profit_expressions :: "string \<rightharpoonup> (sales_row \<Rightarrow> rat)" where
  "profit_expressions =
     [''middle_man'' \<mapsto> middle_man_expr, ''seller'' \<mapsto> seller_expr, ''overall'' \<mapsto> overall_expr]"

section \<open>The statement\<close>

record calc_row =
  group_values :: "sql_value list"
  profit_t1_jpy :: rat
  profit_t2_jpy :: rat

record change_row = calc_row +
  profit_change :: rat

record final_row = change_row +
  total_profit_change :: rat

record profit_change_record = change_row +
  percent_profit_change :: rat

definition group_key :: "string list \<Rightarrow> sales_row \<Rightarrow> sql_value list" where
  "group_key group_by sd = map (\<lambda>c. column c sd) group_by"

text \<open>
  The common table expression \<^verbatim>\<open>calc\<close>: one row per distinct value of the grouping
  columns (\<^verbatim>\<open>GROUP BY\<close> puts nulls in one group), with the two conditional sums over
  the rows of the group.
\<close>

definition calc ::
  "(sales_row \<Rightarrow> rat) \<Rightarrow> string list \<Rightarrow> string \<Rightarrow> string \<Rightarrow> string \<Rightarrow> sales_row list \<Rightarrow> calc_row list" where
  "calc profit_expr group_by t1 t2 time_column tbl =
     map (\<lambda>k.
        \<lparr> group_values = k,
          profit_t1_jpy =
            sum_list (map (\<lambda>sd. if time_match time_column t1 sd then profit_expr sd else 0)
                          (filter (\<lambda>sd. group_key group_by sd = k) tbl)),
          profit_t2_jpy =
            sum_list (map (\<lambda>sd. if time_match time_column t2 sd then profit_expr sd else 0)
                          (filter (\<lambda>sd. group_key group_by sd = k) tbl)) \<rparr>)
       (remdups (map (group_key group_by) tbl))"

text \<open>
  \<^verbatim>\<open>final\<close>: every row of \<^verbatim>\<open>calc\<close>, its difference, and the window sum
  \<^verbatim>\<open>SUM(...) OVER ()\<close> of the differences of all rows of \<^verbatim>\<open>calc\<close>.
\<close>

definition final :: "calc_row list \<Rightarrow> final_row list" where
  "final cs =
     map (\<lambda>c.
        \<lparr> group_values = group_values c,
          profit_t1_jpy = profit_t1_jpy c,
          profit_t2_jpy = profit_t2_jpy c,
          profit_change = profit_t2_jpy c - profit_t1_jpy c,
          total_profit_change = sum_list (map (\<lambda>d. profit_t2_jpy d - profit_t1_jpy d) cs) \<rparr>)
       cs"

text \<open>
  The \<^verbatim>\<open>CASE\<close> of the outer \<^verbatim>\<open>SELECT\<close>: 0 when the total is 0, else the quotient of
  the data store times 100, rounded to two places. \<open>dscale\<close> is the display scale of the
  profit sums of the call, which the column types of the table fix (0 when quantities and
  prices are whole numbers).
\<close>

definition percent_case :: "nat \<Rightarrow> rat \<Rightarrow> rat \<Rightarrow> error + rat" where
  "percent_case dscale change total_change =
     (if total_change = 0 then Inr 0
      else (case numeric_div dscale change \<bar>total_change\<bar> of
              Inl e \<Rightarrow> Inl e
            | Inr q \<Rightarrow> Inr (sql_round (q * 100) 2)))"

text \<open>The outer \<^verbatim>\<open>SELECT\<close> list on one row of \<^verbatim>\<open>final\<close>.\<close>

definition select_row :: "nat \<Rightarrow> final_row \<Rightarrow> error + profit_change_record" where
  "select_row dscale f =
     (case percent_case dscale (profit_change f) (total_profit_change f) of
        Inl e \<Rightarrow> Inl e
      | Inr p \<Rightarrow>
          Inr \<lparr> group_values = group_values f,
                profit_t1_jpy = profit_t1_jpy f,
                profit_t2_jpy = profit_t2_jpy f,
                profit_change = profit_change f,
                percent_profit_change = p \<rparr>)"

text \<open>A statement fails as a whole when the evaluation of one of its rows fails.\<close>

fun collect :: "(error + 'a) list \<Rightarrow> error + 'a list" where
  "collect [] = Inr []"
| "collect (x # xs) =
     (case x of
        Inl e \<Rightarrow> Inl e
      | Inr v \<Rightarrow> (case collect xs of Inl e \<Rightarrow> Inl e | Inr vs \<Rightarrow> Inr (v # vs)))"

text \<open>
  \<^verbatim>\<open>ORDER BY ABS(profit_change) DESC\<close>. The data store leaves the order of rows with
  equal keys open. \<open>rank\<close> stands for its choice: rows with equal keys come out by
  ascending rank of their group (every group has its own grouping values, so every order
  of the ties is the outcome of some rank), and by order of arrival where ranks are equal.
\<close>

definition order_by_abs_desc ::
  "(sql_value list \<Rightarrow> nat) \<Rightarrow> profit_change_record list \<Rightarrow> profit_change_record list" where
  "order_by_abs_desc rank rs =
     sort_key (\<lambda>r. - \<bar>profit_change r\<bar>) (sort_key (\<lambda>r. rank (group_values r)) rs)"

text \<open>
  The text \<^verbatim>\<open>sql\<close> with \<^verbatim>\<open>select_clause\<close>, \<^verbatim>\<open>profit_expr\<close>, \<^verbatim>\<open>group_by_clause\<close>
  and \<^verbatim>\<open>limit\<close> interpolated, as a function of the three bound parameters and the
  data store. An empty select list is a syntax error and a negative \<^verbatim>\<open>LIMIT\<close> is
  rejected by the data store. Grouping names are trusted to be columns of the table.
\<close>

record data_store =
  sales_data :: "sales_row list"
  profit_dscale :: nat
  tie_rank :: "sql_value list \<Rightarrow> nat"

definition sql ::
  "string list \<Rightarrow> (sales_row \<Rightarrow> rat) \<Rightarrow> int \<Rightarrow>
   string \<Rightarrow> string \<Rightarrow> string \<Rightarrow> 'z data_store_scheme \<Rightarrow> error + profit_change_record list" where
  "sql group_by profit_expr limit t1 t2 time_column store =
     (if group_by = [] then Inl DataStoreError
      else if limit < 0 then Inl DataStoreError
      else (case collect (map (select_row (profit_dscale store))
                    (final (calc profit_expr group_by t1 t2 time_column (sales_data store)))) of
              Inl e \<Rightarrow> Inl e
            | Inr rs \<Rightarrow> Inr (take (nat limit) (order_by_abs_desc (tie_rank store) rs))))"

section \<open>The connection and the Python functions\<close>

text \<open>
  A connection gives access to the data store and counts the statements sent over it, so
  that "no query was run" is a statement about the state after the call.
\<close>

record connection = data_store +
  fetches :: nat

definition fetch ::
  "connection \<Rightarrow> (string \<Rightarrow> string \<Rightarrow> string \<Rightarrow> connection \<Rightarrow> error + 'a) \<Rightarrow>
   string \<Rightarrow> string \<Rightarrow> string \<Rightarrow> (error + 'a) \<times> connection" where
  "fetch conn query a1 a2 a3 =
     (query a1 a2 a3 conn, conn\<lparr>fetches := Suc (fetches conn)\<rparr>)"

definition get_profit_change_by_segment ::
  "connection \<Rightarrow> string \<Rightarrow> string \<Rightarrow> string list \<Rightarrow> string list \<Rightarrow> int \<Rightarrow>
   (error + profit_change_record list) \<times> connection" where
  "get_profit_change_by_segment conn profit_type time_column time_values group_by limit =
     (if length time_values = 2 then
        (let t1 = time_values ! 0; t2 = time_values ! 1 in
         (case profit_expressions profit_type of
            None \<Rightarrow> (Inl KeyError, conn)
          | Some profit_expr \<Rightarrow>
              fetch conn (sql group_by profit_expr limit) t1 t2 time_column))
      else (Inl AssertionError, conn))"

text \<open>
  \<^verbatim>\<open>fetch_data\<close> takes a connection from the pool, runs the builder on it and turns
  each row into a dictionary; the model keeps the records as they are.
\<close>

definition fetch_data ::
  "connection \<Rightarrow> string \<Rightarrow> string \<Rightarrow> string list \<Rightarrow> string list \<Rightarrow> int \<Rightarrow>
   (error + profit_change_record list) \<times> connection" where
  "fetch_data conn profit_type time_column time_values group_by limit =
     get_profit_change_by_segment conn profit_type time_column time_values group_by limit"

text \<open>
  The tool \<^verbatim>\<open>get_profit_change\<close>. \<^verbatim>\<open>time_values[0]\<close> on an empty list raises
  \<^verbatim>\<open>IndexError\<close>; the local variable \<open>time_column\<close> is assigned on every branch.
\<close>

definition get_profit_change ::
  "connection \<Rightarrow> string \<Rightarrow> string \<Rightarrow> string list \<Rightarrow> string list \<Rightarrow> int \<Rightarrow>
   (error + profit_change_record list) \<times> connection" where
  "get_profit_change conn profit_type time_column time_values group_by limit =
     (case time_values of
        [] \<Rightarrow> (Inl IndexError, conn)
      | tv0 # _ \<Rightarrow>
          fetch_data conn profit_type
            (if CHR ''Q'' \<in> set tv0 then ''yq''
             else if CHR ''H'' \<in> set tv0 then ''yh''
             else ''ym'')
            time_values group_by limit)"

section \<open>The matching rule as the specification words it\<close>

text \<open>
  For comparison with \<open>time_match\<close> only: the rule of the specification, which reads
  the column selected by \<open>time_column\<close>, accepts an equal value, and accepts a value that
  starts with the target when the target lacks the delimiter of that column.
\<close>

definition selected_column :: "string \<Rightarrow> sales_row \<Rightarrow> string option" where
  "selected_column time_column sd =
     (if time_column = ''ym'' then ym sd
      else if time_column = ''yq'' then yq sd
      else if time_column = ''yh'' then yh sd
      else None)"

definition delimiter :: "string \<Rightarrow> char" where
  "delimiter time_column =
     (if time_column = ''ym'' then CHR ''/''
      else if time_column = ''yq'' then CHR ''Q''
      else CHR ''H'')"

definition spec_time_match :: "string \<Rightarrow> string \<Rightarrow> sales_row \<Rightarrow> bool" where
  "spec_time_match time_column t sd =
     (case selected_column time_column sd of
        None \<Rightarrow> False
      | Some v \<Rightarrow>
          if v = t then True
          else if delimiter time_column \<in> set t then False
          else prefix t v)"

section \<open>A small table\<close>

text \<open>
  Five rows in three business units: A earns 100 in 2022 and 150 in 2023, B earns 200 and
  then 150, C earns 30 in 2023 only. Only the middle-man columns are filled, with whole
  numbers, and ties come out in order of arrival.
\<close>

definition sample_row :: "string \<Rightarrow> string \<Rightarrow> rat \<Rightarrow> rat \<Rightarrow> sales_row" where
  "sample_row bu m qty price =
     \<lparr> ym = Some m, yq = None, yh = None,
       mid_man_qty = Some qty, mid_man_unit_price_jpy = Some price, maker_unit_price_jpy = None,
       seller_qty = None, seller_unit_price_jpy = None,
       dims = (\<lambda>c. if c = ''bu'' then Some bu else None) \<rparr>"

definition sample_conn :: connection where
  "sample_conn =
     \<lparr> sales_data =
         [sample_row ''A'' ''2022/01'' 1 100, sample_row ''A'' ''2023/01'' 1 150,
          sample_row ''B'' ''2022/05'' 1 200, sample_row ''B'' ''2023/02'' 1 150,
          sample_row ''C'' ''2023/07'' 2 15],
       profit_dscale = 0,
       tie_rank = (\<lambda>k. 0),
       fetches = 0 \<rparr>"

text \<open>What the statement returns on it for 2022 against 2023 by \<^verbatim>\<open>bu\<close>, limit 2.\<close>

definition sample_result :: "profit_change_record list" where
  "sample_result =
     [\<lparr>group_values = [SqlText ''A''], profit_t1_jpy = 100, profit_t2_jpy = 150,
       profit_change = 50, percent_profit_change = 16667 / 100\<rparr>,
      \<lparr>group_values = [SqlText ''B''], profit_t1_jpy = 200, profit_t2_jpy = 150,
       profit_change = - 50, percent_profit_change = - (16667 / 100)\<rparr>]"

text \<open>The same table without C: the two changes cancel.\<close>

definition balanced_conn :: connection where
  "balanced_conn = sample_conn\<lparr>sales_data := take 4 (sales_data sample_conn)\<rparr>"

text \<open>The same again on a data store that brings out B before A where they tie.\<close>

definition balanced_conn_b_first :: connection where
  "balanced_conn_b_first =
     balanced_conn\<lparr>tie_rank := (\<lambda>k. if k = [SqlText ''B''] then 0 else 1)\<rparr>"


section \<open>Facts about the SQL operators\<close>

lemma position_zero_iff: "position c s = 0 \<longleftrightarrow> c \<notin> set s"
  by (induction s) (auto split: nat.splits)

lemma like_percent: "like ''%'' s"
  by (induction s) auto

text \<open>On a target free of the three special characters, the pattern is a prefix test.\<close>

lemma like_literal_prefix:
  "CHR ''%'' \<notin> set t \<Longrightarrow> CHR ''_'' \<notin> set t \<Longrightarrow> CHR 0x5C \<notin> set t \<Longrightarrow>
   like (t @ ''%'') s = prefix t s"
proof (induction t arbitrary: s)
  case Nil
  then show ?case using like_percent by simp
next
  case (Cons a t)
  then show ?case by (cases s) auto
qed

lemma sql_or_True: "sql_or a b = Some True \<longleftrightarrow> a = Some True \<or> b = Some True"
  by (cases "(a, b)" rule: sql_or.cases) auto

lemma sql_and_True: "sql_and a b = Some True \<longleftrightarrow> a = Some True \<and> b = Some True"
  by (cases "(a, b)" rule: sql_and.cases) auto

lemma sql_eq_True: "sql_eq a (Some t) = Some True \<longleftrightarrow> a = Some t"
  by (auto simp: sql_eq_def split: option.splits)

lemma sql_like_True: "sql_like a (Some p) = Some True \<longleftrightarrow> (\<exists>v. a = Some v \<and> like p v)"
  by (auto simp: sql_like_def split: option.splits)

section \<open>The time-matching condition, in two-valued form\<close>

lemma time_match_iff:
  "time_match time_column t sd \<longleftrightarrow>
     (time_column = ''ym'' \<and>
        (ym sd = Some t \<or> CHR ''/'' \<notin> set t \<and> (\<exists>v. ym sd = Some v \<and> like (t @ ''%'') v))) \<or>
     (time_column = ''yq'' \<and>
        (yq sd = Some t \<or> CHR ''Q'' \<notin> set t \<and> (\<exists>v. yq sd = Some v \<and> like (t @ ''%'') v))) \<or>
     (time_column = ''yh'' \<and>
        (yh sd = Some t \<or> CHR ''H'' \<notin> set t \<and> (\<exists>v. yh sd = Some v \<and> like (t @ ''%'') v)))"
  unfolding time_match_def time_condition_def sql_or_True sql_and_True sql_eq_True sql_like_True
    position_zero_iff
  by blast

lemma time_match_selected:
  "time_match time_column t sd \<longleftrightarrow>
     time_column \<in> {''ym'', ''yq'', ''yh''} \<and>
     (\<exists>v. selected_column time_column sd = Some v \<and>
          (v = t \<or> delimiter time_column \<notin> set t \<and> like (t @ ''%'') v))"
  unfolding time_match_iff
  by (auto simp: selected_column_def delimiter_def)

text \<open>
  Where the target has none of \<^verbatim>\<open>%\<close>, \<^verbatim>\<open>_\<close> and the backslash, the statement's
  condition is the rule of the specification, for every \<open>time_column\<close> and row.
\<close>

lemma time_match_literal:
  assumes "CHR ''%'' \<notin> set t" "CHR ''_'' \<notin> set t" "CHR 0x5C \<notin> set t"
  shows "time_match time_column t sd = spec_time_match time_column t sd"
  unfolding time_match_selected like_literal_prefix [OF assms] spec_time_match_def
  by (auto simp: selected_column_def split: option.splits)

text \<open>The two scenarios of the specification: a bare year, and a year with a month.\<close>

lemma time_match_year:
  "time_match ''ym'' ''2022'' sd \<longleftrightarrow> (\<exists>v. ym sd = Some v \<and> prefix ''2022'' v)"
  using like_literal_prefix [of "''2022''"] by (auto simp: time_match_iff)

lemma time_match_month:
  "time_match ''ym'' ''2022/05'' sd \<longleftrightarrow> ym sd = Some ''2022/05''"
  by (simp add: time_match_iff)

section \<open>Facts about the statement\<close>

lemma percent_case_Inr:
  "percent_case d c t =
     Inr (if t = 0 then 0 else sql_round (sql_round (c / \<bar>t\<bar>) (select_div_scale d c \<bar>t\<bar>) * 100) 2)"
  by (simp add: percent_case_def numeric_div_def)

text \<open>The guard keeps the division away from a zero total: no row of \<^verbatim>\<open>final\<close> fails.\<close>

lemma select_row_Inr:
  "select_row d f =
     Inr \<lparr> group_values = group_values f, profit_t1_jpy = profit_t1_jpy f,
           profit_t2_jpy = profit_t2_jpy f, profit_change = profit_change f,
           percent_profit_change =
             (if total_profit_change f = 0 then 0
              else sql_round (sql_round (profit_change f / \<bar>total_profit_change f\<bar>)
                     (select_div_scale d (profit_change f) \<bar>total_profit_change f\<bar>) * 100) 2) \<rparr>"
  by (simp add: select_row_def percent_case_Inr)

lemma collect_map_Inr: "collect (map Inr vs) = Inr vs"
  by (induction vs) auto

lemma collect_Inr_iff: "collect xs = Inr vs \<longleftrightarrow> xs = map Inr vs"
proof
  show "collect xs = Inr vs \<Longrightarrow> xs = map Inr vs"
    by (induction xs arbitrary: vs) (auto split: sum.splits)
next
  show "xs = map Inr vs \<Longrightarrow> collect xs = Inr vs"
    by (simp add: collect_map_Inr)
qed

lemma collect_select_rows: "\<exists>rs. collect (map (select_row d) fs) = Inr rs"
proof (induction fs)
  case Nil
  then show ?case by simp
next
  case (Cons f fs)
  then show ?case by (auto simp: select_row_Inr)
qed

lemma selected_rows:
  assumes "collect (map (select_row d) fs) = Inr rs"
  shows "list_all2 (\<lambda>f r. select_row d f = Inr r) fs rs"
proof -
  from assms have "map (select_row d) fs = map Inr rs"
    by (simp add: collect_Inr_iff)
  then show ?thesis
    by (induction fs arbitrary: rs) auto
qed

lemma selected_fields:
  assumes "list_all2 (\<lambda>f r. select_row d f = Inr r) fs rs"
  shows "map group_values rs = map group_values fs"
    and "map profit_change rs = map profit_change fs"
  using assms by (induction rule: list_all2_induct) (auto simp: select_row_Inr)

lemma selected_from:
  assumes "list_all2 (\<lambda>f r. select_row d f = Inr r) fs rs" "r \<in> set rs"
  shows "\<exists>f \<in> set fs. select_row d f = Inr r"
  using assms by (induction rule: list_all2_induct) auto

lemma selected_to:
  assumes "list_all2 (\<lambda>f r. select_row d f = Inr r) fs rs" "f \<in> set fs"
  shows "\<exists>r \<in> set rs. select_row d f = Inr r"
  using assms by (induction rule: list_all2_induct) auto

text \<open>A call that passes the four checks runs the statement once and returns rows.\<close>

lemma ok_result:
  assumes "time_values = [t1, t2]" "profit_expressions profit_type = Some profit_expr"
    "group_by \<noteq> []" "0 \<le> limit"
  shows "\<exists>rs. collect (map (select_row (profit_dscale conn))
                 (final (calc profit_expr group_by t1 t2 time_column (sales_data conn)))) = Inr rs \<and>
           get_profit_change_by_segment conn profit_type time_column time_values group_by limit =
             (Inr (take (nat limit) (order_by_abs_desc (tie_rank conn) rs)),
              conn\<lparr>fetches := Suc (fetches conn)\<rparr>)"
proof -
  from collect_select_rows obtain rs where
    rs: "collect (map (select_row (profit_dscale conn))
           (final (calc profit_expr group_by t1 t2 time_column (sales_data conn)))) = Inr rs"
    by blast
  with assms show ?thesis
    by (simp add: get_profit_change_by_segment_def fetch_def sql_def)
qed

text \<open>A call that returns rows passed the four checks.\<close>

lemma inr_result:
  assumes "get_profit_change_by_segment conn profit_type time_column time_values group_by limit
             = (Inr recs, conn')"
  shows "\<exists>profit_expr t1 t2.
           time_values = [t1, t2] \<and> profit_expressions profit_type = Some profit_expr \<and>
           group_by \<noteq> [] \<and> 0 \<le> limit"
proof -
  from assms have len: "length time_values = 2"
    by (auto simp: get_profit_change_by_segment_def split: if_splits)
  then obtain t1 t2 where tv: "time_values = [t1, t2]"
    by (cases time_values; cases "tl time_values") auto
  from assms tv obtain profit_expr where pe: "profit_expressions profit_type = Some profit_expr"
    by (auto simp: get_profit_change_by_segment_def split: option.splits)
  from assms tv pe show ?thesis
    by (auto simp: get_profit_change_by_segment_def fetch_def sql_def split: if_splits)
qed

lemma inr_result_rows:
  assumes "get_profit_change_by_segment conn profit_type time_column time_values group_by limit
             = (Inr recs, conn')"
  shows "\<exists>profit_expr t1 t2 rs.
           time_values = [t1, t2] \<and> profit_expressions profit_type = Some profit_expr \<and>
           0 \<le> limit \<and>
           list_all2 (\<lambda>f r. select_row (profit_dscale conn) f = Inr r)
             (final (calc profit_expr group_by t1 t2 time_column (sales_data conn))) rs \<and>
           recs = take (nat limit) (order_by_abs_desc (tie_rank conn) rs)"
proof -
  from inr_result [OF assms] obtain profit_expr t1 t2 where
    c: "time_values = [t1, t2]" "profit_expressions profit_type = Some profit_expr"
       "group_by \<noteq> []" "0 \<le> limit"
    by blast
  from ok_result [OF c] obtain rs where
    rs: "collect (map (select_row (profit_dscale conn))
           (final (calc profit_expr group_by t1 t2 time_column (sales_data conn)))) = Inr rs" and
    call: "get_profit_change_by_segment conn profit_type time_column time_values group_by limit =
             (Inr (take (nat limit) (order_by_abs_desc (tie_rank conn) rs)),
              conn\<lparr>fetches := Suc (fetches conn)\<rparr>)"
    by blast
  from call assms have "recs = take (nat limit) (order_by_abs_desc (tie_rank conn) rs)"
    by simp
  with c selected_rows [OF rs] show ?thesis by blast
qed

lemma result_pair:
  "fst (get_profit_change_by_segment conn profit_type time_column time_values group_by limit) = x \<Longrightarrow>
   get_profit_change_by_segment conn profit_type time_column time_values group_by limit =
     (x, snd (get_profit_change_by_segment conn profit_type time_column time_values group_by limit))"
  by (metis prod.collapse)


lemma mset_order_by_abs_desc: "mset (order_by_abs_desc rank rs) = mset rs"
  by (simp add: order_by_abs_desc_def)

lemma set_order_by_abs_desc: "set (order_by_abs_desc rank rs) = set rs"
  by (simp add: order_by_abs_desc_def)

lemma sorted_order_by_abs_desc:
  "sorted_wrt (\<lambda>a b. \<bar>profit_change a\<bar> \<ge> \<bar>profit_change b\<bar>) (order_by_abs_desc rank rs)"
proof -
  have "sorted (map (\<lambda>r. - \<bar>profit_change r\<bar>) (order_by_abs_desc rank rs))"
    unfolding order_by_abs_desc_def by (rule sorted_sort_key)
  then show ?thesis by (simp add: sorted_map)
qed

text \<open>
  The rank covers every choice of the data store: any arrangement of the rows that is in
  descending order of \<open>|profit_change|\<close> is what \<open>order_by_abs_desc\<close> returns for
  some rank, since no two rows share their grouping values.
\<close>

lemma first_index_map:
  "distinct (map g (pre @ ys)) \<Longrightarrow>
   map (\<lambda>r. length (takeWhile (\<lambda>x. g x \<noteq> g r) (pre @ ys))) ys =
     [length pre ..< length pre + length ys]"
proof (induction ys arbitrary: pre)
  case Nil
  then show ?case by simp
next
  case (Cons y ys)
  from Cons.prems have "g y \<notin> g ` set pre"
    by auto
  then have pre: "g x \<noteq> g y" if "x \<in> set pre" for x
    using that by (metis imageI)
  then have here: "length (takeWhile (\<lambda>x. g x \<noteq> g y) (pre @ y # ys)) = length pre"
    by (simp add: takeWhile_append2)
  from Cons.prems have "distinct (map g ((pre @ [y]) @ ys))"
    by simp
  from Cons.IH [OF this]
  have rest: "map (\<lambda>r. length (takeWhile (\<lambda>x. g x \<noteq> g r) (pre @ y # ys))) ys =
                [Suc (length pre) ..< Suc (length pre) + length ys]"
    by (simp del: upt_Suc)
  have "[length pre ..< length pre + length (y # ys)] =
          length pre # [Suc (length pre) ..< Suc (length pre) + length ys]"
    by (simp add: upt_conv_Cons del: upt_Suc)
  with here rest show ?case
    by (simp del: upt_Suc)
qed

lemma filter_inj_single:
  assumes "distinct xs" "inj_on f (set xs)" "k \<in> set xs"
  shows "filter (\<lambda>x. f k = f x) xs = [k]"
proof -
  have "filter (\<lambda>x. f k = f x) xs = filter (\<lambda>x. k = x) xs"
    using assms(2,3) by (intro filter_cong) (auto dest: inj_onD)
  also have "\<dots> = [k]"
    using assms(1,3) by (induction xs) (auto simp: filter_empty_conv)
  finally show ?thesis .
qed

lemma every_tie_order:
  assumes perm: "mset ys = mset rs"
    and dist: "distinct (map group_values rs)"
    and sorted: "sorted_wrt (\<lambda>a b. \<bar>profit_change a\<bar> \<ge> \<bar>profit_change b\<bar>) ys"
  shows "\<exists>rank. order_by_abs_desc rank rs = ys"
proof -
  define rank where "rank k = length (takeWhile (\<lambda>x. group_values x \<noteq> k) ys)" for k
  let ?f = "\<lambda>r. rank (group_values r)"
  from perm dist have dist_ys: "distinct (map group_values ys)"
    by (metis mset_eq_imp_distinct_iff mset_map)
  from first_index_map [of group_values "[]" ys] dist_ys
  have ranks: "map ?f ys = [0 ..< length ys]"
    by (simp add: rank_def)
  then have inj: "inj_on ?f (set ys)" and dys: "distinct ys"
    using distinct_map [of ?f ys] by simp_all
  from perm have sets: "set rs = set ys" and drs: "distinct rs"
    using dys mset_eq_setD mset_eq_imp_distinct_iff by blast+
  have "sort_key ?f rs = ys"
  proof (rule properties_for_sort_key [OF perm])
    fix k assume "k \<in> set ys"
    then show "filter (\<lambda>x. ?f k = ?f x) ys = filter (\<lambda>x. ?f k = ?f x) rs"
      using filter_inj_single [OF dys inj] filter_inj_single [OF drs, of ?f k] inj sets
      by simp
  next
    show "sorted (map ?f ys)"
      unfolding ranks by simp
  qed
  moreover have "sort_key (\<lambda>r. - \<bar>profit_change r\<bar>) ys = ys"
    using sorted by (intro sort_key_id_if_sorted) (simp add: sorted_map)
  ultimately have r: "order_by_abs_desc rank rs = ys"
    by (simp add: order_by_abs_desc_def)
  show ?thesis
    by (rule exI [where x = rank]) (rule r)
qed

lemma sorted_wrt_adjacent:
  "sorted_wrt P xs \<Longrightarrow> Suc i < length xs \<Longrightarrow> P (xs ! i) (xs ! Suc i)"
  by (simp add: sorted_wrt_iff_nth_less)

text \<open>What lies behind the cut of a sorted list is below everything before the cut.\<close>

lemma sorted_wrt_take_drop:
  assumes "sorted_wrt P xs" "x \<in> set (take n xs)" "y \<in> set (drop n xs)"
  shows "P x y"
proof -
  from assms(1) have "sorted_wrt P (take n xs @ drop n xs)" by simp
  with assms(2,3) show ?thesis
    unfolding sorted_wrt_append by blast
qed

lemma behind_the_cut:
  assumes "x \<in> set xs" "x \<notin> set (take n xs)"
  shows "x \<in> set (drop n xs)"
proof -
  have "set xs = set (take n xs) \<union> set (drop n xs)"
    by (metis append_take_drop_id set_append)
  with assms show ?thesis by blast
qed

lemma length_calc:
  "length (calc profit_expr group_by t1 t2 time_column tbl) = card (group_key group_by ` set tbl)"
  by (simp add: calc_def length_remdups_card_conv)

lemma distinct_groups:
  "distinct (map group_values (final (calc profit_expr group_by t1 t2 time_column tbl)))"
  by (simp add: final_def calc_def comp_def)

lemma calc_sums:
  assumes "c \<in> set (calc profit_expr group_by t1 t2 time_column tbl)"
  shows "profit_t1_jpy c =
           sum_list (map profit_expr (filter
             (\<lambda>sd. group_key group_by sd = group_values c \<and> time_match time_column t1 sd) tbl))"
    and "profit_t2_jpy c =
           sum_list (map profit_expr (filter
             (\<lambda>sd. group_key group_by sd = group_values c \<and> time_match time_column t2 sd) tbl))"
  using assms
  by (auto simp: calc_def sum_list_map_filter' [symmetric] conj_commute)

lemma select_row_final:
  assumes "f \<in> set (final cs)" "select_row d f = Inr r"
  shows "\<exists>c \<in> set cs. group_values r = group_values c \<and> profit_t1_jpy r = profit_t1_jpy c \<and>
            profit_t2_jpy r = profit_t2_jpy c \<and> profit_change r = profit_t2_jpy c - profit_t1_jpy c"
  using assms by (auto simp: final_def select_row_Inr)


lemma sample_call:
  "fst (get_profit_change_by_segment sample_conn ''middle_man'' ''ym'' [''2022'', ''2023'']
          [''bu''] 2) = Inr sample_result"
  by code_simp

text \<open>
  The scenario of the specification with two groups whose changes cancel: both records
  report 0 percent. Which of the two comes first is the data store's choice.
\<close>

lemma balanced_call:
  "fst (get_profit_change_by_segment balanced_conn ''middle_man'' ''ym'' [''2022'', ''2023'']
          [''bu''] 10) =
     Inr [\<lparr>group_values = [SqlText ''A''], profit_t1_jpy = 100, profit_t2_jpy = 150,
            profit_change = 50, percent_profit_change = 0\<rparr>,
          \<lparr>group_values = [SqlText ''B''], profit_t1_jpy = 200, profit_t2_jpy = 150,
            profit_change = - 50, percent_profit_change = 0\<rparr>]"
  by code_simp

lemma balanced_call_b_first:
  "fst (get_profit_change_by_segment balanced_conn_b_first ''middle_man'' ''ym''
          [''2022'', ''2023''] [''bu''] 10) =
     Inr [\<lparr>group_values = [SqlText ''B''], profit_t1_jpy = 200, profit_t2_jpy = 150,
            profit_change = - 50, percent_profit_change = 0\<rparr>,
          \<lparr>group_values = [SqlText ''A''], profit_t1_jpy = 100, profit_t2_jpy = 150,
            profit_change = 50, percent_profit_change = 0\<rparr>]"
  by code_simp

section \<open>The claims\<close>

text \<open>
  C1. Claimed: a row matches a target under \<open>time_column\<close> exactly when its value in
  that column equals the target, or the target has no delimiter of that column and
  the value starts with the target. The statement tests the second case with
  \<^verbatim>\<open>LIKE t || '%'\<close>, in which \<^verbatim>\<open>_\<close> and \<^verbatim>\<open>%\<close> inside the target are wildcards.
  With the target \<^verbatim>\<open>202_\<close> and \<open>time_column\<close> \<^verbatim>\<open>ym\<close>, a row of month
  \<^verbatim>\<open>2021/03\<close> is matched although its value neither equals nor starts with the
  target, and the query over the small table sums rows of 2022 and of 2023 into the
  first period. (On targets without the special characters the claim holds: see
  \<open>time_match_literal\<close>, \<open>time_match_year\<close> and \<open>time_match_month\<close>.)
\<close>

theorem time_match_like_wildcard:
  "time_match ''ym'' ''202_'' (sample_row ''A'' ''2021/03'' 1 100) = True \<and>
   spec_time_match ''ym'' ''202_'' (sample_row ''A'' ''2021/03'' 1 100) = False \<and>
   map_sum id (map profit_t1_jpy)
     (fst (get_profit_change_by_segment sample_conn ''middle_man'' ''ym''
        [''202_'', ''2024''] [''bu''] 10)) = Inr [350, 250, 30]"
  by code_simp




text \<open>
  C3. A \<open>time_values\<close> list whose length is not 2 makes the builder fail with the
  assertion error, and the connection is left as it was: no statement was sent. (When
  the interpreter strips assertions, the unpacking on the next line raises instead, also
  before the statement is built.)
\<close>

theorem time_values_length_asserted:
  assumes "length time_values \<noteq> 2"
  shows "get_profit_change_by_segment conn profit_type time_column time_values group_by limit
           = (Inl AssertionError, conn)"
  using assms by (simp add: get_profit_change_by_segment_def)

theorem time_values_length_asserted_witness:
  "length [''2022''] \<noteq> 2 \<and>
   get_profit_change_by_segment sample_conn ''middle_man'' ''ym'' [''2022''] [''bu''] 10
     = (Inl AssertionError, sample_conn)"
  using time_values_length_asserted [of "[''2022'']" sample_conn "''middle_man''" "''ym''" "[''bu'']" 10]
  by simp

text \<open>
  C4. The returned records are in descending order of \<open>|profit_change|\<close> (every
  earlier record against every later one, so also every adjacent pair), and there are at
  most \<open>limit\<close> of them: as many as the limit allows, or all groups if fewer. They are
  the head of the ranking: each is a group of the call, no group comes twice, and every
  group that is left out has a \<open>|profit_change|\<close> no larger than that of any returned
  record. This holds for every order the data store gives to ties.
\<close>

theorem result_sorted_and_limited:
  assumes "get_profit_change_by_segment conn profit_type time_column time_values group_by limit
             = (Inr recs, conn')"
  shows "sorted_wrt (\<lambda>a b. \<bar>profit_change a\<bar> \<ge> \<bar>profit_change b\<bar>) recs \<and>
         (\<forall>i. Suc i < length recs \<longrightarrow>
              \<bar>profit_change (recs ! i)\<bar> \<ge> \<bar>profit_change (recs ! Suc i)\<bar>) \<and>
         int (length recs) \<le> limit \<and>
         length recs = min (nat limit) (card (group_key group_by ` set (sales_data conn))) \<and>
         (\<exists>profit_expr t1 t2.
            time_values = [t1, t2] \<and> profit_expressions profit_type = Some profit_expr \<and>
            distinct (map group_values recs) \<and>
            (\<forall>r \<in> set recs.
               \<exists>g \<in> set (final (calc profit_expr group_by t1 t2 time_column (sales_data conn))).
                 group_values g = group_values r \<and> profit_change g = profit_change r) \<and>
            (\<forall>g \<in> set (final (calc profit_expr group_by t1 t2 time_column (sales_data conn))).
               group_values g \<notin> group_values ` set recs \<longrightarrow>
               (\<forall>r \<in> set recs. \<bar>profit_change g\<bar> \<le> \<bar>profit_change r\<bar>)))"
proof -
  from inr_result_rows [OF assms] obtain profit_expr t1 t2 rs where
    tv: "time_values = [t1, t2]" and pe: "profit_expressions profit_type = Some profit_expr" and
    lim: "0 \<le> limit" and
    sel: "list_all2 (\<lambda>f r. select_row (profit_dscale conn) f = Inr r)
            (final (calc profit_expr group_by t1 t2 time_column (sales_data conn))) rs" and
    recs: "recs = take (nat limit) (order_by_abs_desc (tie_rank conn) rs)"
    by blast
  let ?G = "final (calc profit_expr group_by t1 t2 time_column (sales_data conn))"
  let ?S = "order_by_abs_desc (tie_rank conn) rs"
  have sS: "sorted_wrt (\<lambda>a b. \<bar>profit_change a\<bar> \<ge> \<bar>profit_change b\<bar>) ?S"
    by (rule sorted_order_by_abs_desc)
  have s: "sorted_wrt (\<lambda>a b. \<bar>profit_change a\<bar> \<ge> \<bar>profit_change b\<bar>) recs"
    unfolding recs by (rule sorted_wrt_take) (rule sS)
  have "length rs = length ?G"
    using sel by (simp add: list_all2_lengthD)
  then have n: "length recs = min (nat limit) (card (group_key group_by ` set (sales_data conn)))"
    unfolding recs by (simp add: order_by_abs_desc_def final_def length_calc min.commute)
  have l: "int (length recs) \<le> limit"
    unfolding n using lim by simp
  have "mset (map group_values ?S) = mset (map group_values rs)"
    by (simp add: mset_order_by_abs_desc)
  also have "\<dots> = mset (map group_values ?G)"
    by (simp only: selected_fields(1) [OF sel])
  finally have "distinct (map group_values ?S)"
    using distinct_groups mset_eq_imp_distinct_iff by blast
  then have d: "distinct (map group_values recs)"
    unfolding recs by (simp add: take_map [symmetric])
  have from_group: "\<exists>g \<in> set ?G. group_values g = group_values r \<and> profit_change g = profit_change r"
    if "r \<in> set recs" for r
  proof -
    from that have "r \<in> set rs"
      unfolding recs using set_take_subset set_order_by_abs_desc by fastforce
    from selected_from [OF sel this] show ?thesis
      by (auto simp: select_row_Inr)
  qed
  have left_out: "\<bar>profit_change g\<bar> \<le> \<bar>profit_change r\<bar>"
    if g: "g \<in> set ?G" and out: "group_values g \<notin> group_values ` set recs" and r: "r \<in> set recs"
    for g r
  proof -
    from selected_to [OF sel g] obtain r' where
      r': "r' \<in> set rs" and gr': "select_row (profit_dscale conn) g = Inr r'"
      by blast
    from gr' have same: "group_values r' = group_values g" "profit_change r' = profit_change g"
      by (auto simp: select_row_Inr)
    from out same have "r' \<notin> set (take (nat limit) ?S)"
      unfolding recs by force
    moreover from r' have "r' \<in> set ?S"
      by (simp add: set_order_by_abs_desc)
    ultimately have "r' \<in> set (drop (nat limit) ?S)"
      by (rule behind_the_cut [rotated])
    from sorted_wrt_take_drop [OF sS _ this, of r] r same show ?thesis
      unfolding recs by simp
  qed
  from s n l d tv pe from_group left_out show ?thesis
    using sorted_wrt_adjacent [OF s] by blast
qed

theorem result_sorted_and_limited_witness:
  "fst (get_profit_change_by_segment sample_conn ''middle_man'' ''ym'' [''2022'', ''2023'']
          [''bu''] 2) = Inr sample_result \<and>
   sorted_wrt (\<lambda>a b. \<bar>profit_change a\<bar> \<ge> \<bar>profit_change b\<bar>) sample_result \<and>
   int (length sample_result) \<le> 2 \<and>
   length sample_result = min (nat 2) (card (group_key [''bu''] ` set (sales_data sample_conn))) \<and>
   distinct (map group_values sample_result) \<and>
   list_all (\<lambda>g. group_values g \<in> group_values ` set sample_result \<or>
                 list_all (\<lambda>r. \<bar>profit_change g\<bar> \<le> \<bar>profit_change r\<bar>) sample_result)
     (final (calc middle_man_expr [''bu''] ''2022'' ''2023'' ''ym'' (sales_data sample_conn)))"
proof -
  have pe: "profit_expressions ''middle_man'' = Some middle_man_expr"
    by (simp add: profit_expressions_def)
  from result_sorted_and_limited [OF result_pair [OF sample_call]] pe
  have "sorted_wrt (\<lambda>a b. \<bar>profit_change a\<bar> \<ge> \<bar>profit_change b\<bar>) sample_result"
    "int (length sample_result) \<le> 2"
    "length sample_result = min (nat 2) (card (group_key [''bu''] ` set (sales_data sample_conn)))"
    "distinct (map group_values sample_result)"
    "\<forall>g \<in> set (final (calc middle_man_expr [''bu''] ''2022'' ''2023'' ''ym''
                    (sales_data sample_conn))).
       group_values g \<notin> group_values ` set sample_result \<longrightarrow>
       (\<forall>r \<in> set sample_result. \<bar>profit_change g\<bar> \<le> \<bar>profit_change r\<bar>)"
    by auto
  with sample_call show ?thesis
    unfolding list_all_iff by blast
qed

text \<open>
  C5. On every row, with missing quantities and prices read as zero, the
  \<^verbatim>\<open>overall\<close> expression equals the \<^verbatim>\<open>middle_man\<close> expression plus the
  \<^verbatim>\<open>seller\<close> expression; hence so do the sums over any set of rows.
\<close>

theorem overall_is_middle_man_plus_seller:
  "profit_expressions ''overall'' = Some overall_expr \<and>
   profit_expressions ''middle_man'' = Some middle_man_expr \<and>
   profit_expressions ''seller'' = Some seller_expr \<and>
   overall_expr sd = middle_man_expr sd + seller_expr sd \<and>
   sum_list (map overall_expr rows) =
     sum_list (map middle_man_expr rows) + sum_list (map seller_expr rows)"
proof -
  have row: "overall_expr x = middle_man_expr x + seller_expr x" for x
    by (simp add: overall_expr_def middle_man_expr_def seller_expr_def)
  have "sum_list (map overall_expr rows) =
          sum_list (map middle_man_expr rows) + sum_list (map seller_expr rows)"
    by (induction rows) (simp_all add: row)
  with row show ?thesis
    by (simp add: profit_expressions_def)
qed

text \<open>
  C6. A \<open>profit_type\<close> other than the three names has no entry in the dictionary, and
  the builder fails (with the key error, or with the assertion error when
  \<open>time_values\<close> is malformed too) and leaves the connection as it was: no statement
  was sent, and no expression stands in for the missing one.
\<close>

theorem unknown_profit_type_fails:
  assumes "profit_type \<notin> {''middle_man'', ''seller'', ''overall''}"
  shows "profit_expressions profit_type = None \<and>
         get_profit_change_by_segment conn profit_type time_column time_values group_by limit
           = (Inl (if length time_values = 2 then KeyError else AssertionError), conn)"
  using assms by (simp add: get_profit_change_by_segment_def profit_expressions_def)

theorem unknown_profit_type_fails_witness:
  "''gross'' \<notin> {''middle_man'', ''seller'', ''overall''} \<and>
   profit_expressions ''gross'' = None \<and>
   get_profit_change_by_segment sample_conn ''gross'' ''ym'' [''2022'', ''2023''] [''bu''] 10
     = (Inl KeyError, sample_conn)"
  using unknown_profit_type_fails [of "''gross''" sample_conn "''ym''" "[''2022'', ''2023'']" "[''bu'']" 10]
  by simp

text \<open>
  C7. Whether a row matches depends only on its value in the column that
  \<open>time_column\<close> names: with \<^verbatim>\<open>ym\<close>, replacing the row's \<^verbatim>\<open>yq\<close> and \<^verbatim>\<open>yh\<close> by
  anything leaves the outcome as it is, and likewise for \<^verbatim>\<open>yq\<close> and \<^verbatim>\<open>yh\<close>.
\<close>

theorem time_match_selected_column_only:
  "time_match ''ym'' t (sd\<lparr>yq := q, yh := h\<rparr>) = time_match ''ym'' t sd \<and>
   time_match ''yq'' t (sd\<lparr>ym := m, yh := h\<rparr>) = time_match ''yq'' t sd \<and>
   time_match ''yh'' t (sd\<lparr>ym := m, yq := q\<rparr>) = time_match ''yh'' t sd"
  by (simp add: time_match_iff)

text \<open>
  C8. Every returned record has \<open>profit_change = profit_t2_jpy - profit_t1_jpy\<close>,
  where \<open>profit_t1_jpy\<close> is the sum of the profit expression over the rows of the
  record's group that match \<open>t1\<close>, and \<open>profit_t2_jpy\<close> the same for \<open>t2\<close>.
\<close>

theorem profit_change_is_difference:
  assumes "get_profit_change_by_segment conn profit_type time_column time_values group_by limit
             = (Inr recs, conn')"
  shows "\<exists>profit_expr t1 t2.
           time_values = [t1, t2] \<and> profit_expressions profit_type = Some profit_expr \<and>
           (\<forall>r \<in> set recs.
              profit_change r = profit_t2_jpy r - profit_t1_jpy r \<and>
              profit_t1_jpy r = sum_list (map profit_expr (filter
                 (\<lambda>sd. group_key group_by sd = group_values r \<and> time_match time_column t1 sd)
                 (sales_data conn))) \<and>
              profit_t2_jpy r = sum_list (map profit_expr (filter
                 (\<lambda>sd. group_key group_by sd = group_values r \<and> time_match time_column t2 sd)
                 (sales_data conn))))"
proof -
  from inr_result_rows [OF assms] obtain profit_expr t1 t2 rs where
    tv: "time_values = [t1, t2]" and pe: "profit_expressions profit_type = Some profit_expr" and
    sel: "list_all2 (\<lambda>f r. select_row (profit_dscale conn) f = Inr r)
            (final (calc profit_expr group_by t1 t2 time_column (sales_data conn))) rs" and
    recs: "recs = take (nat limit) (order_by_abs_desc (tie_rank conn) rs)"
    by blast
  have "profit_change r = profit_t2_jpy r - profit_t1_jpy r \<and>
        profit_t1_jpy r = sum_list (map profit_expr (filter
           (\<lambda>sd. group_key group_by sd = group_values r \<and> time_match time_column t1 sd)
           (sales_data conn))) \<and>
        profit_t2_jpy r = sum_list (map profit_expr (filter
           (\<lambda>sd. group_key group_by sd = group_values r \<and> time_match time_column t2 sd)
           (sales_data conn)))"
    if "r \<in> set recs" for r
  proof -
    from that have "r \<in> set rs"
      unfolding recs using set_take_subset set_order_by_abs_desc by fastforce
    from selected_from [OF sel this] obtain f where
      f: "f \<in> set (final (calc profit_expr group_by t1 t2 time_column (sales_data conn)))"
         "select_row (profit_dscale conn) f = Inr r"
      by blast
    from select_row_final [OF f] obtain c where
      c: "c \<in> set (calc profit_expr group_by t1 t2 time_column (sales_data conn))" and
      eqs: "group_values r = group_values c" "profit_t1_jpy r = profit_t1_jpy c"
           "profit_t2_jpy r = profit_t2_jpy c" "profit_change r = profit_t2_jpy c - profit_t1_jpy c"
      by blast
    show ?thesis
      using calc_sums [OF c] eqs by simp
  qed
  with tv pe show ?thesis by blast
qed

theorem profit_change_is_difference_witness:
  "fst (get_profit_change_by_segment sample_conn ''middle_man'' ''ym'' [''2022'', ''2023'']
          [''bu''] 2) = Inr sample_result \<and>
   map profit_change sample_result =
     map (\<lambda>r. profit_t2_jpy r - profit_t1_jpy r) sample_result \<and>
   map profit_t1_jpy sample_result =
     map (\<lambda>r. sum_list (map middle_man_expr (filter
         (\<lambda>sd. group_key [''bu''] sd = group_values r \<and> time_match ''ym'' ''2022'' sd)
         (sales_data sample_conn)))) sample_result \<and>
   map profit_t2_jpy sample_result =
     map (\<lambda>r. sum_list (map middle_man_expr (filter
         (\<lambda>sd. group_key [''bu''] sd = group_values r \<and> time_match ''ym'' ''2023'' sd)
         (sales_data sample_conn)))) sample_result"
proof -
  have pe: "profit_expressions ''middle_man'' = Some middle_man_expr"
    by (simp add: profit_expressions_def)
  from profit_change_is_difference [OF result_pair [OF sample_call]]
  obtain profit_expr t1 t2 where
    "[''2022'', ''2023''] = [t1, t2]" "profit_expressions ''middle_man'' = Some profit_expr"
    "\<forall>r \<in> set sample_result.
       profit_change r = profit_t2_jpy r - profit_t1_jpy r \<and>
       profit_t1_jpy r = sum_list (map profit_expr (filter
          (\<lambda>sd. group_key [''bu''] sd = group_values r \<and> time_match ''ym'' t1 sd)
          (sales_data sample_conn))) \<and>
       profit_t2_jpy r = sum_list (map profit_expr (filter
          (\<lambda>sd. group_key [''bu''] sd = group_values r \<and> time_match ''ym'' t2 sd)
          (sales_data sample_conn)))"
    by blast
  with pe have "\<forall>r \<in> set sample_result.
       profit_change r = profit_t2_jpy r - profit_t1_jpy r \<and>
       profit_t1_jpy r = sum_list (map middle_man_expr (filter
          (\<lambda>sd. group_key [''bu''] sd = group_values r \<and> time_match ''ym'' ''2022'' sd)
          (sales_data sample_conn))) \<and>
       profit_t2_jpy r = sum_list (map middle_man_expr (filter
          (\<lambda>sd. group_key [''bu''] sd = group_values r \<and> time_match ''ym'' ''2023'' sd)
          (sales_data sample_conn)))"
    by simp
  with sample_call show ?thesis
    unfolding map_eq_conv by blast
qed

text \<open>
  C9. The tool passes on a \<open>time_column\<close> computed from the first time value alone
  (\<^verbatim>\<open>yq\<close> if it contains \<^verbatim>\<open>Q\<close>, else \<^verbatim>\<open>yh\<close> if it contains \<^verbatim>\<open>H\<close>, else
  \<^verbatim>\<open>ym\<close>), and the \<open>time_column\<close> the caller gave has no effect on the outcome.
\<close>

theorem get_profit_change_infers_time_column:
  "get_profit_change conn profit_type time_column (tv0 # rest) group_by limit =
     fetch_data conn profit_type
       (if CHR ''Q'' \<in> set tv0 then ''yq'' else if CHR ''H'' \<in> set tv0 then ''yh'' else ''ym'')
       (tv0 # rest) group_by limit \<and>
   get_profit_change conn profit_type time_column time_values group_by limit =
     get_profit_change conn profit_type time_column' time_values group_by limit"
  by (simp add: get_profit_change_def split: list.splits)

text \<open>
  C10. On an empty \<open>time_values\<close> the tool fails with the index error of
  \<^verbatim>\<open>time_values[0]\<close>, not with the assertion error that the builder itself gives for
  the same list, and nothing is sent over the connection.
\<close>

theorem get_profit_change_empty_index_error:
  "get_profit_change conn profit_type time_column [] group_by limit = (Inl IndexError, conn) \<and>
   fst (get_profit_change conn profit_type time_column [] group_by limit) \<noteq> Inl AssertionError \<and>
   get_profit_change_by_segment conn profit_type time_column [] group_by limit
     = (Inl AssertionError, conn)"
  by (simp add: get_profit_change_def get_profit_change_by_segment_def)

end
